theory Spec2Isabelle
  imports Complex_Main
begin

section \<open>The feature-group readiness poll\<close>

text \<open>
  The notebook defines one function of its own:
  \<^verbatim>\<open>
  def check_feature_group_status(feature_group):
      status = feature_group.describe().get("FeatureGroupStatus")
      while status == "Creating":
          print("Waiting for Feature Group to be Created")
          time.sleep(5)
          status = feature_group.describe().get("FeatureGroupStatus")
      print(f"FeatureGroup {feature_group.name} successfully created.")
  \<close>
  \<open>describe\<close> is a call to the remote service. Its answer is a dictionary, or the call
  raises; the answer changes from one call to the next. A feature group is therefore
  modelled by its name and by the outcome of its k-th \<open>describe\<close> call (counting from 0).
\<close>

type_synonym response = "string \<rightharpoonup> string"

datatype describe_outcome = Raises string | Returns response

record feature_group =
  name :: string
  describe :: "nat \<Rightarrow> describe_outcome"

text \<open>
  The effects of the function are the \<open>describe\<close> calls it makes, the calls of
  \<open>time.sleep\<close> with their durations, and the lines it prints.
\<close>

record world =
  fetches :: nat
  sleeps :: "nat list"
  stdout :: "string list"

definition print_line :: "string \<Rightarrow> world \<Rightarrow> world" where
  "print_line s w = w\<lparr>stdout := stdout w @ [s]\<rparr>"

definition time_sleep :: "nat \<Rightarrow> world \<Rightarrow> world" where
  "time_sleep d w = w\<lparr>sleeps := sleeps w @ [d]\<rparr>"

text \<open>
  \<open>feature_group.describe().get("FeatureGroupStatus")\<close>: one call of \<open>describe\<close>; an
  exception leaves the function (\<open>Inl\<close>), otherwise \<open>dict.get\<close> gives the value stored
  under the key, or Python's \<open>None\<close> when the key is absent.
\<close>

definition waiting_line :: string where
  "waiting_line = ''Waiting for Feature Group to be Created''"

definition created_line :: "feature_group \<Rightarrow> string" where
  "created_line fg = ''FeatureGroup '' @ name fg @ '' successfully created.''"

definition fetch_status :: "feature_group \<Rightarrow> world \<Rightarrow> (string + string option) \<times> world" where
  "fetch_status fg w =
     (case describe fg (fetches w) of
        Raises e \<Rightarrow> Inl e
      | Returns r \<Rightarrow> Inr (r ''FeatureGroupStatus''),
      w\<lparr>fetches := Suc (fetches w)\<rparr>)"

text \<open>
  The \<open>while\<close> loop, entered with the status just fetched. The loop has no bound, so it is a
  partial function: \<open>None\<close> is a run that never leaves the loop. A run that ends gives
  \<open>Inl e\<close> for an exception raised by \<open>describe\<close> and \<open>Inr ()\<close> for the normal return
  (the Python function returns nothing).
\<close>

partial_function (option) while_creating ::
  "feature_group \<Rightarrow> string option \<Rightarrow> world \<Rightarrow> ((string + unit) \<times> world) option"
where
  "while_creating fg status w =
     (if status = Some ''Creating'' then
        (case fetch_status fg
                (time_sleep 5 (print_line waiting_line w)) of
           (Inl e, w') \<Rightarrow> Some (Inl e, w')
         | (Inr status', w') \<Rightarrow> while_creating fg status' w')
      else
        Some (Inr (), print_line (created_line fg) w))"

declare while_creating.simps [code]

definition check_feature_group_status ::
  "feature_group \<Rightarrow> world \<Rightarrow> ((string + unit) \<times> world) option"
where
  "check_feature_group_status fg w =
     (case fetch_status fg w of
        (Inl e, w') \<Rightarrow> Some (Inl e, w')
      | (Inr status, w') \<Rightarrow> while_creating fg status w')"

text \<open>
  A scripted remote service for concrete runs: the k-th call answers with the k-th
  response of the list, each response carrying only the status; a call beyond the
  script raises, as an exhausted mock does.
\<close>

definition status_response :: "string \<Rightarrow> response" where
  "status_response s = [''FeatureGroupStatus'' \<mapsto> s]"

definition replay :: "string list \<Rightarrow> nat \<Rightarrow> describe_outcome" where
  "replay ss k =
     (if k < length ss then Returns (status_response (ss ! k)) else Raises ''StopIteration'')"

definition world0 :: world where
  "world0 = \<lparr>fetches = 0, sleeps = [], stdout = []\<rparr>"

text \<open>
  The loop condition, read on the outcome of a \<open>describe\<close> call: the call returned and
  the status in its answer is the transient one.
\<close>

definition is_creating :: "describe_outcome \<Rightarrow> bool" where
  "is_creating out =
     (case out of Raises e \<Rightarrow> False | Returns r \<Rightarrow> r ''FeatureGroupStatus'' = Some ''Creating'')"

text \<open>
  What follows a \<open>describe\<close> call whose outcome is known: the exception propagates, or the
  loop is entered with the fetched status.
\<close>

definition resume ::
  "feature_group \<Rightarrow> describe_outcome \<Rightarrow> world \<Rightarrow> ((string + unit) \<times> world) option"
where
  "resume fg out w =
     (case out of Raises e \<Rightarrow> Some (Inl e, w) | Returns r \<Rightarrow> while_creating fg (r ''FeatureGroupStatus'') w)"

definition finish :: "feature_group \<Rightarrow> describe_outcome \<Rightarrow> world \<Rightarrow> (string + unit) \<times> world" where
  "finish fg out w =
     (case out of Raises e \<Rightarrow> (Inl e, w) | Returns r \<Rightarrow> (Inr (), print_line (created_line fg) w))"


text \<open>A run that ended with an exception leaving the function.\<close>

definition raised :: "((string + unit) \<times> world) option \<Rightarrow> bool" where
  "raised run = (case run of Some (Inl e, w) \<Rightarrow> True | _ \<Rightarrow> False)"


section \<open>The event-time column\<close>

text \<open>
  The notebook reads two tables with \<open>pd.read_csv\<close>, captures the time once and adds a column
  to both:
  \<^verbatim>\<open>
  current_time_sec = int(round(time.time()))
  customer_data["EventTime"] = pd.Series([current_time_sec]*len(customer_data), dtype="float64")
  orders_data["EventTime"] = pd.Series([current_time_sec]*len(orders_data), dtype="float64")
  \<close>
  A frame is its columns in order, each a name with its cells from the first row to the
  last, and its number of rows (\<open>len\<close> of the frame). Rows are addressed by position:
  \<open>read_csv\<close> is called without an index column and the series is built from a plain list,
  so both carry the default index \<open>0..n-1\<close>. A cell is a value parsed from the file (the
  type \<open>'v\<close>) or the \<open>float64\<close> made from an integer, kept symbolically.
\<close>

datatype 'v cell = Parsed 'v | Float64_of_int int

record 'v data_frame =
  columns :: "(string \<times> 'v cell list) list"
  nrows :: nat

text \<open>\<open>pd.Series([x]*n, dtype="float64")\<close>: the list \<open>[x]*n\<close>, every element made a float.\<close>

definition float64_series :: "int list \<Rightarrow> 'v cell list" where
  "float64_series xs = map Float64_of_int xs"

text \<open>
  \<open>df[key] = series\<close> for a series with the index of the frame: a column of that name is
  replaced where it stands, otherwise the column is added after the last one.
\<close>

definition setitem :: "string \<Rightarrow> 'v cell list \<Rightarrow> 'v data_frame \<Rightarrow> 'v data_frame" where
  "setitem key series df =
     (if key \<in> set (map fst (columns df))
      then df\<lparr>columns := map (\<lambda>(k, c). if k = key then (k, series) else (k, c)) (columns df)\<rparr>
      else df\<lparr>columns := columns df @ [(key, series)]\<rparr>)"

text \<open>\<open>df[key]\<close>, where the column exists.\<close>

definition getitem :: "string \<Rightarrow> 'v data_frame \<Rightarrow> 'v cell list option" where
  "getitem key df = map_of (columns df) key"

definition append_event_time :: "int \<Rightarrow> 'v data_frame \<Rightarrow> 'v data_frame" where
  "append_event_time t df = setitem ''EventTime'' (float64_series (replicate (nrows df) t)) df"

text \<open>
  \<open>round\<close> of a Python float gives the nearest integer, the even one of the two when the
  float lies half way. A float is a rational number.
\<close>

definition py_round :: "rat \<Rightarrow> int" where
  "py_round x =
     (let f = \<lfloor>x\<rfloor>; d = x - of_int f in
      if d < 1 / 2 then f else if 1 / 2 < d then f + 1 else if even f then f else f + 1)"

text \<open>
  The variables of the notebook that these cells read and write. \<open>current_time_sec\<close> is
  unbound until its cell has run. The clock is the sequence of values that successive
  calls of \<open>time.time()\<close> return; \<open>clock_reads\<close> counts the calls made.
\<close>

record 'v notebook =
  customer_data :: "'v data_frame"
  orders_data :: "'v data_frame"
  current_time_sec :: "int option"
  clock_reads :: nat

definition capture_time :: "(nat \<Rightarrow> rat) \<Rightarrow> 'v notebook \<Rightarrow> 'v notebook" where
  "capture_time clock nb =
     nb\<lparr>current_time_sec := Some (py_round (clock (clock_reads nb))),
        clock_reads := Suc (clock_reads nb)\<rparr>"

definition append_event_times :: "'v notebook \<Rightarrow> string + 'v notebook" where
  "append_event_times nb =
     (case current_time_sec nb of
        None \<Rightarrow> Inl ''NameError''
      | Some t \<Rightarrow>
          Inr (nb\<lparr>customer_data := append_event_time t (customer_data nb),
                  orders_data := append_event_time t (orders_data nb)\<rparr>))"

text \<open>A table that already has a column named \<open>EventTime\<close>.\<close>

definition stamped_orders :: "int data_frame" where
  "stamped_orders =
     \<lparr>columns = [(''customer_id'', [Parsed 573291, Parsed 109382]),
                 (''EventTime'', [Parsed 1, Parsed 2]),
                 (''order_id'', [Parsed 4132, Parsed 4133])],
      nrows = 2\<rparr>"

definition sample_customers :: "int data_frame" where
  "sample_customers =
     \<lparr>columns = [(''customer_id'', [Parsed 573291, Parsed 109382]),
                 (''city_code'', [Parsed 1, Parsed 2])],
      nrows = 2\<rparr>"


section \<open>Runs of the readiness poll\<close>

text \<open>
  A run is determined by the first \<open>describe\<close> call that does not answer \<open>Creating\<close>: every
  call before it costs one notification and one sleep of 5, and that call ends the run.
\<close>

lemma check_resume:
  "check_feature_group_status fg w = resume fg (describe fg (fetches w)) (w\<lparr>fetches := Suc (fetches w)\<rparr>)"
  by (simp add: check_feature_group_status_def fetch_status_def resume_def split: describe_outcome.split)

lemma resume_creating:
  assumes "is_creating out"
  shows "resume fg out w =
         resume fg (describe fg (fetches w))
           (w\<lparr>fetches := Suc (fetches w), sleeps := sleeps w @ [5], stdout := stdout w @ [waiting_line]\<rparr>)"
proof -
  have upd: "w\<lparr>stdout := stdout w @ [waiting_line], sleeps := sleeps w @ [5], fetches := Suc (fetches w)\<rparr>
    = w\<lparr>fetches := Suc (fetches w), sleeps := sleeps w @ [5], stdout := stdout w @ [waiting_line]\<rparr>"
    by (cases w) simp
  from assms obtain r where out: "out = Returns r" and r: "r ''FeatureGroupStatus'' = Some ''Creating''"
    by (auto simp: is_creating_def split: describe_outcome.splits)
  show ?thesis
    unfolding out resume_def
    by (subst while_creating.simps)
       (simp add: r fetch_status_def time_sleep_def print_line_def upd split: describe_outcome.split)
qed

lemma resume_done:
  assumes "\<not> is_creating out"
  shows "resume fg out w = Some (finish fg out w)"
proof (cases out)
  case (Raises e)
  then show ?thesis by (simp add: resume_def finish_def)
next
  case (Returns r)
  with assms have "r ''FeatureGroupStatus'' \<noteq> Some ''Creating''"
    by (simp add: is_creating_def)
  then show ?thesis
    unfolding Returns resume_def finish_def
    by (subst while_creating.simps) simp
qed

lemma resume_run:
  assumes "\<forall>i<n. is_creating (describe fg (fetches w + i))"
    and "is_creating out"
    and "\<not> is_creating (describe fg (fetches w + n))"
  shows "resume fg out w =
         Some (finish fg (describe fg (fetches w + n))
                (w\<lparr>fetches := Suc (fetches w + n),
                   sleeps := sleeps w @ replicate (Suc n) 5,
                   stdout := stdout w @ replicate (Suc n) waiting_line\<rparr>))"
  using assms
proof (induction n arbitrary: w out)
  case 0
  then show ?case
    by (simp add: resume_creating resume_done)
next
  case (Suc n)
  let ?w = "w\<lparr>fetches := Suc (fetches w), sleeps := sleeps w @ [5], stdout := stdout w @ [waiting_line]\<rparr>"
  have first: "is_creating (describe fg (fetches w))"
    using Suc.prems(1) by (metis add.right_neutral zero_less_Suc)
  have rest: "\<forall>i<n. is_creating (describe fg (fetches ?w + i))"
    using Suc.prems(1) by (auto dest: spec [of _ "Suc _"])
  have last: "\<not> is_creating (describe fg (fetches ?w + n))"
    using Suc.prems(3) by simp
  have "resume fg out w = resume fg (describe fg (fetches w)) ?w"
    by (rule resume_creating [OF Suc.prems(2)])
  also have "\<dots> = Some (finish fg (describe fg (fetches ?w + n))
                (?w\<lparr>fetches := Suc (fetches ?w + n),
                   sleeps := sleeps ?w @ replicate (Suc n) 5,
                   stdout := stdout ?w @ replicate (Suc n) waiting_line\<rparr>))"
    by (rule Suc.IH [OF rest first last])
  finally show ?case
    by (simp add: replicate_append_same)
qed

lemma check_run:
  assumes "\<forall>i<n. is_creating (describe fg (fetches w + i))"
    and "\<not> is_creating (describe fg (fetches w + n))"
  shows "check_feature_group_status fg w =
         Some (finish fg (describe fg (fetches w + n))
                (w\<lparr>fetches := Suc (fetches w + n),
                   sleeps := sleeps w @ replicate n 5,
                   stdout := stdout w @ replicate n waiting_line\<rparr>))"
proof (cases n)
  case 0
  with assms show ?thesis
    by (simp add: check_resume resume_done)
next
  case (Suc m)
  let ?w = "w\<lparr>fetches := Suc (fetches w)\<rparr>"
  have first: "is_creating (describe fg (fetches w))"
    using assms(1) Suc by (metis add.right_neutral zero_less_Suc)
  have rest: "\<forall>i<m. is_creating (describe fg (fetches ?w + i))"
    using assms(1) Suc by (auto dest: spec [of _ "Suc _"])
  have last: "\<not> is_creating (describe fg (fetches ?w + m))"
    using assms(2) Suc by simp
  show ?thesis
    unfolding check_resume
    by (subst resume_run [OF rest first last]) (simp add: Suc)
qed

lemma while_creating_stuck:
  assumes "while_creating fg status w = Some y"
  shows "status \<noteq> Some ''Creating'' \<or> (\<exists>k\<ge>fetches w. \<not> is_creating (describe fg k))"
proof (rule while_creating.raw_induct
    [where P = "\<lambda>fg status w y. status \<noteq> Some ''Creating'' \<or> (\<exists>k\<ge>fetches w. \<not> is_creating (describe fg k))",
     OF _ assms], goal_cases)
  case (1 rec fg status w y)
  show ?case
  proof (cases "status = Some ''Creating''")
    case False
    then show ?thesis by simp
  next
    case True
    let ?w = "time_sleep 5 (print_line waiting_line w)"
    have fw: "fetches ?w = fetches w"
      by (simp add: time_sleep_def print_line_def)
    show ?thesis
    proof (cases "describe fg (fetches w)")
      case (Raises e)
      then have "\<not> is_creating (describe fg (fetches w))"
        by (simp add: is_creating_def)
      then show ?thesis by blast
    next
      case (Returns r)
      with 1(2) True fw
      have "rec fg (r ''FeatureGroupStatus'') (?w\<lparr>fetches := Suc (fetches w)\<rparr>) = Some y"
        by (simp add: fetch_status_def)
      from 1(1) [OF this]
      have "r ''FeatureGroupStatus'' \<noteq> Some ''Creating'' \<or> (\<exists>k\<ge>Suc (fetches w). \<not> is_creating (describe fg k))"
        by simp
      then show ?thesis
      proof
        assume "r ''FeatureGroupStatus'' \<noteq> Some ''Creating''"
        with Returns have "\<not> is_creating (describe fg (fetches w))"
          by (simp add: is_creating_def)
        then show ?thesis by blast
      next
        assume "\<exists>k\<ge>Suc (fetches w). \<not> is_creating (describe fg k)"
        then show ?thesis by (meson Suc_leD)
      qed
    qed
  qed
qed

lemma check_returns_iff:
  "(\<exists>y. check_feature_group_status fg w = Some y) \<longleftrightarrow> (\<exists>k\<ge>fetches w. \<not> is_creating (describe fg k))"
proof
  assume "\<exists>y. check_feature_group_status fg w = Some y"
  then obtain y where y: "check_feature_group_status fg w = Some y" ..
  show "\<exists>k\<ge>fetches w. \<not> is_creating (describe fg k)"
  proof (cases "describe fg (fetches w)")
    case (Raises e)
    then have "\<not> is_creating (describe fg (fetches w))" by (simp add: is_creating_def)
    then show ?thesis by blast
  next
    case (Returns r)
    with y have "while_creating fg (r ''FeatureGroupStatus'') (w\<lparr>fetches := Suc (fetches w)\<rparr>) = Some y"
      by (simp add: check_feature_group_status_def fetch_status_def)
    from while_creating_stuck [OF this]
    have "r ''FeatureGroupStatus'' \<noteq> Some ''Creating'' \<or> (\<exists>k\<ge>Suc (fetches w). \<not> is_creating (describe fg k))"
      by simp
    then show ?thesis
    proof
      assume "r ''FeatureGroupStatus'' \<noteq> Some ''Creating''"
      with Returns have "\<not> is_creating (describe fg (fetches w))"
        by (simp add: is_creating_def)
      then show ?thesis by blast
    next
      assume "\<exists>k\<ge>Suc (fetches w). \<not> is_creating (describe fg k)"
      then show ?thesis by (meson Suc_leD)
    qed
  qed
next
  assume "\<exists>k\<ge>fetches w. \<not> is_creating (describe fg k)"
  then have ex: "\<exists>n. \<not> is_creating (describe fg (fetches w + n))"
    by (metis le_Suc_ex)
  define n where "n = (LEAST n. \<not> is_creating (describe fg (fetches w + n)))"
  have last: "\<not> is_creating (describe fg (fetches w + n))"
    unfolding n_def using ex by (rule LeastI_ex)
  have before: "\<forall>i<n. is_creating (describe fg (fetches w + i))"
    unfolding n_def using not_less_Least by blast
  from check_run [OF before last] show "\<exists>y. check_feature_group_status fg w = Some y"
    by blast
qed

lemma check_some_run:
  assumes "check_feature_group_status fg w = Some y"
  shows "\<exists>n. (\<forall>i<n. is_creating (describe fg (fetches w + i)))
           \<and> \<not> is_creating (describe fg (fetches w + n))
           \<and> y = finish fg (describe fg (fetches w + n))
                  (w\<lparr>fetches := Suc (fetches w + n),
                     sleeps := sleeps w @ replicate n 5,
                     stdout := stdout w @ replicate n waiting_line\<rparr>)"
proof -
  from assms have "\<exists>k\<ge>fetches w. \<not> is_creating (describe fg k)"
    using check_returns_iff by blast
  then have ex: "\<exists>n. \<not> is_creating (describe fg (fetches w + n))"
    by (metis le_Suc_ex)
  define n where "n = (LEAST n. \<not> is_creating (describe fg (fetches w + n)))"
  have last: "\<not> is_creating (describe fg (fetches w + n))"
    unfolding n_def using ex by (rule LeastI_ex)
  have before: "\<forall>i<n. is_creating (describe fg (fetches w + i))"
    unfolding n_def using not_less_Least by blast
  from check_run [OF before last] assms before last show ?thesis
    by auto
qed

lemma created_line_not_waiting: "created_line fg \<noteq> waiting_line"
  by (simp add: created_line_def waiting_line_def)

text \<open>
  Claim C2. On the status sequence Creating, Creating, Created the poll sleeps exactly
  twice, 5 time units each time, and then returns normally with the message of success,
  after three fetches.
\<close>

theorem poll_creating_creating_created:
  "check_feature_group_status
     \<lparr>name = n, describe = replay [''Creating'', ''Creating'', ''Created'']\<rparr> world0 =
   Some (Inr (),
         \<lparr>fetches = 3, sleeps = [5, 5],
          stdout = [''Waiting for Feature Group to be Created'',
                    ''Waiting for Feature Group to be Created'',
                    ''FeatureGroup '' @ n @ '' successfully created.'']\<rparr>)"
  by (simp add: check_feature_group_status_def fetch_status_def while_creating.simps
      replay_def status_response_def world0_def print_line_def time_sleep_def
      waiting_line_def created_line_def)

text \<open>
  Claim C1. A status of \<open>Failed\<close> (or any value the poll does not know) fetched after
  \<open>Creating\<close> is to be surfaced as a distinct error, never as success; on Creating, Failed
  the poll is to end after exactly one sleep with that failure. The function misses the
  case: its loop tests only for \<open>Creating\<close>, and whatever else is fetched leaves it through
  the same last line. On Creating, Failed the run does end after exactly one sleep, but it
  raises nothing and prints that the group was successfully created.
\<close>

theorem poll_creating_failed_returns_normally:
  "check_feature_group_status
     \<lparr>name = ''customers'', describe = replay [''Creating'', ''Failed'']\<rparr> world0 =
   Some (Inr (),
         \<lparr>fetches = 2, sleeps = [5],
          stdout = [''Waiting for Feature Group to be Created'',
                    ''FeatureGroup customers successfully created.'']\<rparr>)
   \<and> \<not> raised (check_feature_group_status
          \<lparr>name = ''customers'', describe = replay [''Creating'', ''Failed'']\<rparr> world0)"
  by (simp add: check_feature_group_status_def fetch_status_def while_creating.simps
      replay_def status_response_def world0_def print_line_def time_sleep_def
      waiting_line_def created_line_def raised_def)

text \<open>
  Claim C5. The poll has no bound on its attempts. It ends if and only if some
  \<open>describe\<close> call has an outcome other than the answer \<open>Creating\<close> (an exception raised by
  the call is such an outcome, and ends the run by propagating); on a sequence that answers
  \<open>Creating\<close> for ever it never returns; and for every \<open>N\<close> there is a run that returns
  only after \<open>N\<close> sleeps and \<open>N + 1\<close> fetches.
\<close>

theorem poll_unbounded:
  "((\<exists>res. check_feature_group_status fg world0 = Some res)
      \<longleftrightarrow> (\<exists>k. \<not> is_creating (describe fg k)))
   \<and> ((\<forall>k. is_creating (describe fg k)) \<longrightarrow> check_feature_group_status fg world0 = None)
   \<and> (\<exists>w. check_feature_group_status
              \<lparr>name = nm, describe = replay (replicate N ''Creating'' @ [''Created''])\<rparr> world0
            = Some (Inr (), w) \<and> fetches w = N + 1 \<and> length (sleeps w) = N)"
proof (intro conjI)
  show iff: "(\<exists>res. check_feature_group_status fg world0 = Some res)
      \<longleftrightarrow> (\<exists>k. \<not> is_creating (describe fg k))"
    using check_returns_iff [of fg world0] by (simp add: world0_def)
  show "(\<forall>k. is_creating (describe fg k)) \<longrightarrow> check_feature_group_status fg world0 = None"
    using iff by (cases "check_feature_group_status fg world0") auto
  let ?fg = "\<lparr>name = nm, describe = replay (replicate N ''Creating'' @ [''Created''])\<rparr>"
  have before: "\<forall>i<N. is_creating (describe ?fg (fetches world0 + i))"
    by (simp add: world0_def replay_def is_creating_def status_response_def nth_append)
  have last: "\<not> is_creating (describe ?fg (fetches world0 + N))"
    by (simp add: world0_def replay_def is_creating_def status_response_def nth_append)
  show "\<exists>w. check_feature_group_status ?fg world0 = Some (Inr (), w)
          \<and> fetches w = N + 1 \<and> length (sleeps w) = N"
    by (subst check_run [OF before last])
       (simp add: finish_def world0_def print_line_def replay_def nth_append)
qed

theorem poll_unbounded_witness:
  "(\<forall>k. is_creating (describe \<lparr>name = ''customers'', describe = (\<lambda>k. Returns (status_response ''Creating''))\<rparr> k))
   \<and> check_feature_group_status
        \<lparr>name = ''customers'', describe = (\<lambda>k. Returns (status_response ''Creating''))\<rparr> world0 = None"
proof -
  have h: "\<forall>k. is_creating (describe \<lparr>name = ''customers'', describe = (\<lambda>k. Returns (status_response ''Creating''))\<rparr> k)"
    by (simp add: is_creating_def status_response_def)
  from poll_unbounded [of "\<lparr>name = ''customers'', describe = (\<lambda>k. Returns (status_response ''Creating''))\<rparr>"] h
  show ?thesis by blast
qed

text \<open>
  Claim C9. In every run that ends, the number of fetches is the number of sleeps plus
  one, and the number of progress notifications printed is the number of sleeps.
\<close>

theorem poll_fetches_sleeps_notifications:
  assumes "check_feature_group_status fg world0 = Some (res, w)"
  shows "fetches w = length (sleeps w) + 1
         \<and> length (filter (\<lambda>l. l = waiting_line) (stdout w)) = length (sleeps w)"
proof -
  from check_some_run [OF assms] obtain n where
    y: "(res, w) = finish fg (describe fg (fetches world0 + n))
                  (world0\<lparr>fetches := Suc (fetches world0 + n),
                     sleeps := sleeps world0 @ replicate n 5,
                     stdout := stdout world0 @ replicate n waiting_line\<rparr>)"
    by blast
  show ?thesis
  proof (cases "describe fg (fetches world0 + n)")
    case (Raises e)
    with y show ?thesis
      by (simp add: finish_def world0_def)
  next
    case (Returns r)
    with y show ?thesis
      using created_line_not_waiting [of fg]
      by (auto simp add: finish_def world0_def print_line_def)
  qed
qed

theorem poll_fetches_sleeps_notifications_witness:
  "check_feature_group_status
     \<lparr>name = ''orders'', describe = replay [''Creating'', ''Creating'', ''Created'']\<rparr> world0 =
   Some (Inr (),
         \<lparr>fetches = 3, sleeps = [5, 5],
          stdout = [waiting_line, waiting_line, ''FeatureGroup orders successfully created.'']\<rparr>)
   \<and> (3::nat) = length [5, 5::nat] + 1
   \<and> length (filter (\<lambda>l. l = waiting_line)
         [waiting_line, waiting_line, ''FeatureGroup orders successfully created.'']) =
       length [5, 5::nat]"
proof -
  have run: "check_feature_group_status
     \<lparr>name = ''orders'', describe = replay [''Creating'', ''Creating'', ''Created'']\<rparr> world0 =
   Some (Inr (),
         \<lparr>fetches = 3, sleeps = [5, 5],
          stdout = [waiting_line, waiting_line, ''FeatureGroup orders successfully created.'']\<rparr>)"
    by (simp add: check_feature_group_status_def fetch_status_def while_creating.simps
      replay_def status_response_def world0_def print_line_def time_sleep_def created_line_def)
  from poll_fetches_sleeps_notifications [OF run] run show ?thesis
    by simp
qed


section \<open>Appending the event time\<close>

lemma getitem_setitem: "getitem key (setitem key series df) = Some series"
proof (cases "key \<in> set (map fst (columns df))")
  case True
  have "map_of (map (\<lambda>(k, c). if k = key then (k, series) else (k, c)) cs) key = Some series"
    if "key \<in> set (map fst cs)" for cs :: "(string \<times> 'a cell list) list"
    using that by (induction cs) auto
  with True show ?thesis
    by (simp add: getitem_def setitem_def)
next
  case False
  then have "map_of (columns df) key = None"
    by (simp add: map_of_eq_None_iff)
  with False show ?thesis
    by (simp add: getitem_def setitem_def map_add_def)
qed

lemma nrows_setitem: "nrows (setitem key series df) = nrows df"
  by (simp add: setitem_def)

lemma overwrite_names:
  "map fst (map (\<lambda>(k, c). if k = key then (k, series) else (k, c)) cs) = map fst cs"
  by (induction cs) auto

lemma overwrite_other_key:
  "key' \<noteq> key \<Longrightarrow>
   map_of (map (\<lambda>(k, c). if k = key then (k, series) else (k, c)) cs) key' = map_of cs key'"
  by (induction cs) auto

lemma overwrite_key:
  "key \<in> set (map fst cs) \<Longrightarrow>
   map_of (map (\<lambda>(k, c). if k = key then (k, series) else (k, c)) cs) key = Some series"
  by (induction cs) auto

text \<open>
  Claim C8, as the code has it. For every table without a column named \<open>EventTime\<close>, the
  assignment adds exactly that one column, after the last one, and nothing else changes:
  the columns that were there keep their names, their order and every cell in row order,
  and the number of rows is the same. For every table that already has a column named
  \<open>EventTime\<close>, the assignment adds no column: it writes the timestamp over that column
  where it stands, and the names and order of the columns, every other column with its
  cells, and the number of rows are the same.
\<close>

theorem event_time_append_or_overwrite:
  "(''EventTime'' \<notin> set (map fst (columns df)) \<longrightarrow>
      columns (append_event_time t df) =
        columns df @ [(''EventTime'', replicate (nrows df) (Float64_of_int t))]
      \<and> map fst (columns (append_event_time t df)) = map fst (columns df) @ [''EventTime'']
      \<and> take (length (columns df)) (columns (append_event_time t df)) = columns df
      \<and> (\<forall>key. key \<noteq> ''EventTime'' \<longrightarrow>
            getitem key (append_event_time t df) = getitem key df)
      \<and> nrows (append_event_time t df) = nrows df)
   \<and> (''EventTime'' \<in> set (map fst (columns df)) \<longrightarrow>
      map fst (columns (append_event_time t df)) = map fst (columns df)
      \<and> length (columns (append_event_time t df)) = length (columns df)
      \<and> getitem ''EventTime'' (append_event_time t df) =
          Some (replicate (nrows df) (Float64_of_int t))
      \<and> (\<forall>key. key \<noteq> ''EventTime'' \<longrightarrow>
            getitem key (append_event_time t df) = getitem key df)
      \<and> (\<forall>i. i < length (columns df) \<and> fst (columns df ! i) \<noteq> ''EventTime'' \<longrightarrow>
            columns (append_event_time t df) ! i = columns df ! i)
      \<and> nrows (append_event_time t df) = nrows df)"
proof (intro conjI impI)
  assume absent: "''EventTime'' \<notin> set (map fst (columns df))"
  then show "columns (append_event_time t df) =
        columns df @ [(''EventTime'', replicate (nrows df) (Float64_of_int t))]"
    by (simp add: append_event_time_def setitem_def float64_series_def)
  from absent show "map fst (columns (append_event_time t df)) = map fst (columns df) @ [''EventTime'']"
    by (simp add: append_event_time_def setitem_def)
  from absent show "take (length (columns df)) (columns (append_event_time t df)) = columns df"
    by (simp add: append_event_time_def setitem_def)
  from absent show "\<forall>key. key \<noteq> ''EventTime'' \<longrightarrow>
            getitem key (append_event_time t df) = getitem key df"
    by (simp add: append_event_time_def setitem_def getitem_def map_add_def split: option.split)
  from absent show "nrows (append_event_time t df) = nrows df"
    by (simp add: append_event_time_def setitem_def)
next
  assume present: "''EventTime'' \<in> set (map fst (columns df))"
  then show "map fst (columns (append_event_time t df)) = map fst (columns df)"
    by (simp add: append_event_time_def setitem_def overwrite_names del: map_map)
  from present show "length (columns (append_event_time t df)) = length (columns df)"
    by (simp add: append_event_time_def setitem_def)
  from present show "getitem ''EventTime'' (append_event_time t df) =
          Some (replicate (nrows df) (Float64_of_int t))"
    by (simp add: append_event_time_def setitem_def getitem_def overwrite_key float64_series_def)
  from present show "\<forall>key. key \<noteq> ''EventTime'' \<longrightarrow>
            getitem key (append_event_time t df) = getitem key df"
    by (simp add: append_event_time_def setitem_def getitem_def overwrite_other_key)
  from present show "\<forall>i. i < length (columns df) \<and> fst (columns df ! i) \<noteq> ''EventTime'' \<longrightarrow>
            columns (append_event_time t df) ! i = columns df ! i"
    by (auto simp add: append_event_time_def setitem_def case_prod_beta)
  from present show "nrows (append_event_time t df) = nrows df"
    by (simp add: append_event_time_def setitem_def)
qed

theorem event_time_append_or_overwrite_witness:
  "''EventTime'' \<notin> set (map fst (columns sample_customers))
   \<and> columns (append_event_time 1600000000 sample_customers) =
       [(''customer_id'', [Parsed 573291, Parsed 109382]),
        (''city_code'', [Parsed 1, Parsed 2]),
        (''EventTime'', [Float64_of_int 1600000000, Float64_of_int 1600000000])]
   \<and> nrows (append_event_time 1600000000 sample_customers) = 2
   \<and> ''EventTime'' \<in> set (map fst (columns stamped_orders))
   \<and> map fst (columns (append_event_time 1600000000 stamped_orders)) =
       [''customer_id'', ''EventTime'', ''order_id'']
   \<and> getitem ''EventTime'' (append_event_time 1600000000 stamped_orders) =
       Some [Float64_of_int 1600000000, Float64_of_int 1600000000]
   \<and> getitem ''order_id'' (append_event_time 1600000000 stamped_orders) =
       Some [Parsed 4132, Parsed 4133]
   \<and> nrows (append_event_time 1600000000 stamped_orders) = 2"
proof -
  have absent: "''EventTime'' \<notin> set (map fst (columns sample_customers))"
    by (simp add: sample_customers_def)
  have present: "''EventTime'' \<in> set (map fst (columns stamped_orders))"
    by (simp add: stamped_orders_def)
  have other: "''order_id'' \<noteq> ''EventTime''"
    by simp
  note A = event_time_append_or_overwrite
    [of sample_customers 1600000000, THEN conjunct1, THEN mp, OF absent]
  note P = event_time_append_or_overwrite
    [of stamped_orders 1600000000, THEN conjunct2, THEN mp, OF present]
  have a: "columns (append_event_time 1600000000 sample_customers) =
      [(''customer_id'', [Parsed 573291, Parsed 109382]),
       (''city_code'', [Parsed 1, Parsed 2]),
       (''EventTime'', [Float64_of_int 1600000000, Float64_of_int 1600000000])]"
    unfolding A [THEN conjunct1] by (simp add: sample_customers_def numeral_2_eq_2)
  have an: "nrows (append_event_time 1600000000 sample_customers) = 2"
    unfolding A [THEN conjunct2, THEN conjunct2, THEN conjunct2, THEN conjunct2]
    by (simp add: sample_customers_def)
  have p1: "map fst (columns (append_event_time 1600000000 stamped_orders)) =
      [''customer_id'', ''EventTime'', ''order_id'']"
    unfolding P [THEN conjunct1] by (simp add: stamped_orders_def)
  have p2: "getitem ''EventTime'' (append_event_time 1600000000 stamped_orders) =
      Some [Float64_of_int 1600000000, Float64_of_int 1600000000]"
    unfolding P [THEN conjunct2, THEN conjunct2, THEN conjunct1]
    by (simp add: stamped_orders_def numeral_2_eq_2)
  have p3: "getitem ''order_id'' (append_event_time 1600000000 stamped_orders) =
      Some [Parsed 4132, Parsed 4133]"
    unfolding P [THEN conjunct2, THEN conjunct2, THEN conjunct2, THEN conjunct1,
        THEN spec, THEN mp, OF other]
    by (simp add: stamped_orders_def getitem_def)
  have p4: "nrows (append_event_time 1600000000 stamped_orders) = 2"
    unfolding P [THEN conjunct2, THEN conjunct2, THEN conjunct2, THEN conjunct2, THEN conjunct2]
    by (simp add: stamped_orders_def)
  from absent present a an p1 p2 p3 p4 show ?thesis
    by (intro conjI)
qed

text \<open>
  The counterexample to C8 as it is stated, for every table. A table that already has a
  column named \<open>EventTime\<close> is a table too, and there the assignment writes over that
  column: no column is added and the cells of the old column are gone.
\<close>

theorem event_time_overwrites_existing_column:
  "columns (append_event_time 1600000000 stamped_orders) =
     [(''customer_id'', [Parsed 573291, Parsed 109382]),
      (''EventTime'', [Float64_of_int 1600000000, Float64_of_int 1600000000]),
      (''order_id'', [Parsed 4132, Parsed 4133])]
   \<and> length (columns (append_event_time 1600000000 stamped_orders)) = length (columns stamped_orders)
   \<and> getitem ''EventTime'' stamped_orders = Some [Parsed 1, Parsed 2]
   \<and> getitem ''EventTime'' (append_event_time 1600000000 stamped_orders)
       \<noteq> getitem ''EventTime'' stamped_orders"
  by (simp add: append_event_time_def setitem_def float64_series_def getitem_def
      stamped_orders_def numeral_2_eq_2)

text \<open>
  Claim C10. The clock is read once, when \<open>current_time_sec\<close> is assigned; the cell that
  follows stamps that one value, as a \<open>float64\<close>, on every row of the customer table and on
  every row of the orders table. These are the tables later handed to \<open>ingest\<close>: no cell in
  between assigns to them.
\<close>

theorem one_timestamp_on_every_row:
  "\<exists>nb'. append_event_times (capture_time clock nb) = Inr nb'
     \<and> clock_reads nb' = Suc (clock_reads nb)
     \<and> current_time_sec nb' = Some (py_round (clock (clock_reads nb)))
     \<and> getitem ''EventTime'' (customer_data nb') =
         Some (replicate (nrows (customer_data nb)) (Float64_of_int (py_round (clock (clock_reads nb)))))
     \<and> getitem ''EventTime'' (orders_data nb') =
         Some (replicate (nrows (orders_data nb)) (Float64_of_int (py_round (clock (clock_reads nb)))))
     \<and> nrows (customer_data nb') = nrows (customer_data nb)
     \<and> nrows (orders_data nb') = nrows (orders_data nb)"
  by (simp add: append_event_times_def capture_time_def append_event_time_def
      getitem_setitem nrows_setitem float64_series_def)


section \<open>Ingestion\<close>

text \<open>
  The notebook ingests with
  \<^verbatim>\<open>customers_feature_group.ingest(data_frame=customer_data, max_workers=3, wait=True)\<close>
  and the same call for the orders. \<open>FeatureGroup.ingest\<close> is a method of the SageMaker
  Python SDK; the notebook holds its two calls and no part of its body, so how it splits
  the rows among workers, what it validates and how it collects failures is not defined
  here, and nothing is stated about it.
\<close>

end
